theory Spec2Isabelle
  imports Main "HOL-Library.Sublist" "HOL-Library.AList"
begin

section \<open>Python strings and dictionaries as keys.py uses them\<close>

text \<open>
  A Python \<open>str\<close> is modelled as a \<open>string\<close>; each \<open>char\<close> stands for one code
  point below 256. \<open>s.startswith(p)\<close> and \<open>s.endswith(p)\<close> are the prefix and the suffix
  test.
\<close>

definition startswith :: "string \<Rightarrow> string \<Rightarrow> bool" where
  "startswith s p = prefix p s"

definition endswith :: "string \<Rightarrow> string \<Rightarrow> bool" where
  "endswith s p = suffix p s"

text \<open>
  \<open>s.strip(chars)\<close> removes from both ends of \<open>s\<close> every character that occurs in
  \<open>chars\<close>, as long as there is one; it is not limited to one character per end.
\<close>

definition strip :: "string \<Rightarrow> string \<Rightarrow> string" where
  "strip s chars =
     rev (dropWhile (\<lambda>c. c \<in> set chars) (rev (dropWhile (\<lambda>c. c \<in> set chars) s)))"

text \<open>
  \<open>s.strip()\<close> without an argument removes white space. Below code point 256 Python's
  white space is 9 to 13, 28 to 32, 133 and 160.
\<close>

definition isspace :: "char \<Rightarrow> bool" where
  "isspace c =
     (let n = (of_char c :: nat)
      in (9 \<le> n \<and> n \<le> 13) \<or> (28 \<le> n \<and> n \<le> 32) \<or> n = 133 \<or> n = 160)"

definition strip_ws :: "string \<Rightarrow> string" where
  "strip_ws s = rev (dropWhile isspace (rev (dropWhile isspace s)))"

text \<open>
  A \<open>dict\<close> from strings to strings is an association list with one entry per key:
  \<open>d[k] = v\<close> replaces the value of an entry that exists and appends a new entry
  otherwise, \<open>d.get(k)\<close> is the exact-match lookup.
\<close>

type_synonym dict = "(string \<times> string) list"

definition dict_set :: "dict \<Rightarrow> string \<Rightarrow> string \<Rightarrow> dict" where
  "dict_set d k v = AList.update k v d"

definition dict_get :: "dict \<Rightarrow> string \<Rightarrow> string option" where
  "dict_get d k = map_of d k"

definition dict_keys :: "dict \<Rightarrow> string list" where
  "dict_keys d = map fst d"

section \<open>The key parser of \<open>qutebrowser/commands/keys.py\<close>\<close>

text \<open>
  The object state that \<open>CommandKeyParser\<close> reads and writes: the attributes
  \<open>_keystring\<close>, \<open>_bindings\<close> and \<open>_modifier_bindings\<close> that it inherits from
  \<open>KeyParser\<close>. \<open>pending_count\<close> is the pending count of the accumulator
  (section 3 of the specification, PendingState); no method of keys.py touches it.
\<close>

record keyparser =
  keystring :: string
  pending_count :: "nat option"
  bindings :: dict
  modifier_bindings :: dict

text \<open>
  A key press event: the result of \<open>e.text()\<close>, and the modifier indicator that
  section 3 of the specification gives a KeyEvent; keys.py reads the text only.
\<close>

record key_event =
  key_text :: string
  key_modifier :: bool

text \<open>
  What a method does beyond changing the object: the calls it makes to the command
  parser (\<open>commandparser.run(cmdstr, count=count, ignore_exc=ignore_exc)\<close>), the
  \<open>set_cmd_text\<close> signals it emits and the log records it writes, in order.
\<close>

datatype effect =
    Run string "nat option" bool
  | SetCmdText string
  | LogDebug string
  | LogWarn string

text \<open>The exceptions of \<open>qutebrowser.commands.parsers\<close>, and any other one.\<close>

datatype exn = NoSuchCommandError | ArgumentCountError | OtherError string

text \<open>
  The command parser is an external collaborator: a call either returns (\<open>None\<close>) or
  raises.
\<close>

type_synonym executor = "string \<Rightarrow> nat option \<Rightarrow> bool \<Rightarrow> exn option"

definition STARTCHARS :: string where
  "STARTCHARS = '':/?''"

definition supports_count :: bool where
  "supports_count = True"

text \<open>
  \<open>_run_or_fill(cmdstr, count, ignore_exc)\<close>: the effects and the exception that leaves
  the method, if any.
\<close>

definition run_or_fill :: "executor \<Rightarrow> string \<Rightarrow> nat option \<Rightarrow> bool \<Rightarrow> effect list \<times> exn option" where
  "run_or_fill run cmdstr count ignore_exc =
     (case run cmdstr count ignore_exc of
        None \<Rightarrow> ([Run cmdstr count ignore_exc], None)
      | Some NoSuchCommandError \<Rightarrow> ([Run cmdstr count ignore_exc], None)
      | Some ArgumentCountError \<Rightarrow>
          ([Run cmdstr count ignore_exc,
            LogDebug (''Filling statusbar with partial command '' @ cmdstr),
            SetCmdText ('':'' @ cmdstr @ '' '')], None)
      | Some (OtherError x) \<Rightarrow> ([Run cmdstr count ignore_exc], Some (OtherError x)))"

text \<open>\<open>execute(cmdstr, count)\<close>: handle a completed keychain.\<close>

definition execute :: "executor \<Rightarrow> string \<Rightarrow> nat option \<Rightarrow> effect list \<times> exn option" where
  "execute run cmdstr count = run_or_fill run cmdstr count False"

text \<open>
  \<open>_handle_single_key(e)\<close>. The handler of the base class, \<open>super()._handle_single_key\<close>,
  is a parameter.
\<close>

type_synonym handler = "keyparser \<Rightarrow> key_event \<Rightarrow> keyparser \<times> effect list \<times> exn option"

definition handle_single_key :: "handler \<Rightarrow> handler" where
  "handle_single_key super_handle s e =
     (let txt = strip_ws (key_text e)
      in if keystring s = [] \<and> list_ex (\<lambda>c. txt = [c]) STARTCHARS
         then (s, [SetCmdText txt], None)
         else super_handle s e)"

text \<open>
  \<open>read_config()\<close>. The section \<open>config.instance['keybind']\<close> is the list of its items,
  and \<open>_normalize_keystr\<close> of the base class is a parameter. \<open>register_key\<close> is the body
  of the loop, \<open>read_items\<close> the loop.
\<close>

definition is_modifier_spec :: "string \<Rightarrow> bool" where
  "is_modifier_spec key = (startswith key ''@'' \<and> endswith key ''@'')"

definition register_key :: "(string \<Rightarrow> string) \<Rightarrow> keyparser \<Rightarrow> string \<times> string \<Rightarrow> keyparser \<times> effect" where
  "register_key normalize_keystr s item =
     (case item of (key, cmd) \<Rightarrow>
        if startswith key ''@'' \<and> endswith key ''@''
        then (let keystr = normalize_keystr (strip key ''@'')
              in (s\<lparr>modifier_bindings := dict_set (modifier_bindings s) keystr cmd\<rparr>,
                  LogDebug (''registered mod key: '' @ keystr @ '' -> '' @ cmd)))
        else (s\<lparr>bindings := dict_set (bindings s) key cmd\<rparr>,
              LogDebug (''registered key: '' @ key @ '' -> '' @ cmd)))"

fun read_items :: "(string \<Rightarrow> string) \<Rightarrow> keyparser \<Rightarrow> (string \<times> string) list \<Rightarrow> keyparser \<times> effect list" where
  "read_items normalize_keystr s [] = (s, [])"
| "read_items normalize_keystr s (item # items) =
     (case register_key normalize_keystr s item of (s1, l) \<Rightarrow>
        (case read_items normalize_keystr s1 items of (s2, ls) \<Rightarrow> (s2, l # ls)))"

definition read_config :: "(string \<Rightarrow> string) \<Rightarrow> (string \<times> string) list \<Rightarrow> keyparser \<Rightarrow> keyparser \<times> effect list \<times> exn option" where
  "read_config normalize_keystr sect s =
     (let warned = (if sect = [] then [LogWarn ''No keybindings defined!''] else [])
      in case read_items normalize_keystr s sect of (s', ls) \<Rightarrow> (s', warned @ ls, None))"

text \<open>\<open>on_config_changed(section, option)\<close>; \<open>sect\<close> is the content of the section \<open>keybind\<close>.\<close>

definition on_config_changed :: "(string \<Rightarrow> string) \<Rightarrow> (string \<times> string) list \<Rightarrow> string \<Rightarrow> string \<Rightarrow> keyparser \<Rightarrow> keyparser \<times> effect list \<times> exn option" where
  "on_config_changed normalize_keystr sect section option s =
     (if section = ''keybind'' then read_config normalize_keystr sect s else (s, [], None))"

text \<open>A parser on which nothing has been typed and nothing is bound.\<close>

definition empty_parser :: keyparser where
  "empty_parser = \<lparr>keystring = [], pending_count = None, bindings = [], modifier_bindings = []\<rparr>"

text \<open>
  What a configuration section asks for: the bindings of its plain key-specs, as they
  are written, and the bindings of its modifier key-specs, each under the keystring it
  is stored under.
\<close>

definition plain_specs :: "(string \<times> string) list \<Rightarrow> (string \<times> string) list" where
  "plain_specs sect = filter (\<lambda>item. \<not> is_modifier_spec (fst item)) sect"

definition modifier_specs :: "(string \<Rightarrow> string) \<Rightarrow> (string \<times> string) list \<Rightarrow> (string \<times> string) list" where
  "modifier_specs normalize_keystr sect =
     map (\<lambda>item. (normalize_keystr (strip (fst item) ''@''), snd item))
         (filter (\<lambda>item. is_modifier_spec (fst item)) sect)"

definition plain_keys :: "(string \<times> string) list \<Rightarrow> string list" where
  "plain_keys sect = map fst (plain_specs sect)"

definition modifier_keys :: "(string \<Rightarrow> string) \<Rightarrow> (string \<times> string) list \<Rightarrow> string list" where
  "modifier_keys normalize_keystr sect = map fst (modifier_specs normalize_keystr sect)"

section \<open>The keychain accumulator of the base class\<close>

text \<open>
  Modelled from the spec: the class \<open>KeyParser\<close> of \<open>qutebrowser/utils/keyparser.py\<close>,
  whose \<open>_handle_single_key\<close> looks keystrings up and dispatches, is not among the
  sources. The lookups follow section 4.1 of the specification (exact match, no side
  effect), the accumulator section 4.2, steps 2 and 3: a bare digit goes to the pending
  count when counts are supported; any other text is appended to the keystring (and
  normalized when the event carries a modifier); an exact match in the table concerned
  is dispatched through \<open>execute\<close> with the pending count and resets the pending state;
  a strict prefix of some bound keystring waits; anything else is a dead end and resets
  without a dispatch. \<open>handle_keys\<close> delivers key events one after the other, each
  handled to completion before the next (section 5).
\<close>

definition lookup_plain :: "keyparser \<Rightarrow> string \<Rightarrow> string option" where
  "lookup_plain s k = dict_get (bindings s) k"

definition lookup_modifier :: "keyparser \<Rightarrow> string \<Rightarrow> string option" where
  "lookup_modifier s k = dict_get (modifier_bindings s) k"

definition reset :: "keyparser \<Rightarrow> keyparser" where
  "reset s = s\<lparr>keystring := [], pending_count := None\<rparr>"

definition is_bare_digit :: "key_event \<Rightarrow> bool" where
  "is_bare_digit e = (\<not> key_modifier e \<and> list_ex (\<lambda>c. key_text e = [c]) ''0123456789'')"

definition push_digit :: "nat option \<Rightarrow> string \<Rightarrow> nat option" where
  "push_digit n d =
     Some (10 * (case n of None \<Rightarrow> 0 | Some m \<Rightarrow> m) + (of_char (hd d) - of_char CHR ''0''))"

definition accumulate :: "(string \<Rightarrow> string) \<Rightarrow> executor \<Rightarrow> handler" where
  "accumulate normalize_keystr run s e =
     (if supports_count \<and> is_bare_digit e
      then (s\<lparr>pending_count := push_digit (pending_count s) (key_text e)\<rparr>, [], None)
      else
        (let ks = (if key_modifier e then normalize_keystr (keystring s @ key_text e)
                   else keystring s @ key_text e);
             found = (if key_modifier e then lookup_modifier s ks else lookup_plain s ks);
             longer = (if key_modifier e then dict_keys (modifier_bindings s)
                       else dict_keys (bindings s))
         in case found of
              Some cmd \<Rightarrow>
                (case execute run cmd (pending_count s) of (es, x) \<Rightarrow> (reset s, es, x))
            | None \<Rightarrow>
                if list_ex (strict_prefix ks) longer then (s\<lparr>keystring := ks\<rparr>, [], None)
                else (reset s, [], None)))"

fun handle_keys :: "handler \<Rightarrow> keyparser \<Rightarrow> key_event list \<Rightarrow> keyparser \<times> effect list" where
  "handle_keys h s [] = (s, [])"
| "handle_keys h s (e # es) =
     (case h s e of (s1, l, x) \<Rightarrow>
        (case handle_keys h s1 es of (s2, ls) \<Rightarrow> (s2, l @ ls)))"

section \<open>Observations\<close>

text \<open>Reading a result: the \<open>set_cmd_text\<close> texts and the calls to the command parser.\<close>

fun status_texts :: "effect list \<Rightarrow> string list" where
  "status_texts [] = []"
| "status_texts (SetCmdText t # es) = t # status_texts es"
| "status_texts (_ # es) = status_texts es"

fun executor_calls :: "effect list \<Rightarrow> (string \<times> nat option \<times> bool) list" where
  "executor_calls [] = []"
| "executor_calls (Run c n i # es) = (c, n, i) # executor_calls es"
| "executor_calls (_ # es) = executor_calls es"

fun warnings :: "effect list \<Rightarrow> string list" where
  "warnings [] = []"
| "warnings (LogWarn t # es) = t # warnings es"
| "warnings (_ # es) = warnings es"

section \<open>Evaluation\<close>

lemmas eval_defs = read_config_def register_key_def empty_parser_def dict_get_def dict_set_def
  dict_keys_def plain_keys_def plain_specs_def modifier_keys_def modifier_specs_def
  is_modifier_spec_def startswith_def endswith_def strip_def suffix_to_prefix
  on_config_changed_def

section \<open>Dispatch\<close>

text \<open>
  C4. When the command parser raises \<open>ArgumentCountError\<close>, whatever \<open>ignore_exc\<close> is,
  \<open>_run_or_fill\<close> emits \<open>set_cmd_text\<close> exactly once, with a colon, the command string and
  one space, and no exception leaves it.
\<close>

theorem run_or_fill_argument_count:
  "run cmdstr count ignore_exc = Some ArgumentCountError \<Longrightarrow>
     status_texts (fst (run_or_fill run cmdstr count ignore_exc)) = [CHR '':'' # cmdstr @ '' ''] \<and>
     snd (run_or_fill run cmdstr count ignore_exc) = None"
  by (simp add: run_or_fill_def)

theorem run_or_fill_argument_count_witness:
  "status_texts (fst (run_or_fill (\<lambda>c n i. if c = ''open'' then Some ArgumentCountError else None)
                        ''open'' None True)) = ['':open '']
   \<and> snd (run_or_fill (\<lambda>c n i. if c = ''open'' then Some ArgumentCountError else None)
                        ''open'' None True) = None
   \<and> status_texts (fst (run_or_fill (\<lambda>c n i. if c = ''open'' then Some ArgumentCountError else None)
                        ''open'' (Some 3) False)) = ['':open '']
   \<and> snd (run_or_fill (\<lambda>c n i. if c = ''open'' then Some ArgumentCountError else None)
                        ''open'' (Some 3) False) = None"
  using run_or_fill_argument_count
          [of "\<lambda>c n i. if c = ''open'' then Some ArgumentCountError else None" "''open''" None True]
        run_or_fill_argument_count
          [of "\<lambda>c n i. if c = ''open'' then Some ArgumentCountError else None" "''open''" "Some 3" False]
  by simp

text \<open>
  C3, as the code has it. When the command parser raises \<open>NoSuchCommandError\<close>,
  \<open>_run_or_fill\<close> swallows it for either value of \<open>ignore_exc\<close>: the call to the command
  parser is its only effect, so there is no status text, and no exception leaves it.
\<close>

theorem run_or_fill_unknown_command:
  "run cmdstr count ignore_exc = Some NoSuchCommandError \<Longrightarrow>
     run_or_fill run cmdstr count ignore_exc = ([Run cmdstr count ignore_exc], None)"
  by (simp add: run_or_fill_def)

theorem run_or_fill_unknown_command_witness:
  "run_or_fill (\<lambda>c n i. Some NoSuchCommandError) ''nosuch'' None True
     = ([Run ''nosuch'' None True], None)
   \<and> run_or_fill (\<lambda>c n i. Some NoSuchCommandError) ''nosuch'' (Some 2) False
     = ([Run ''nosuch'' (Some 2) False], None)"
  using run_or_fill_unknown_command [of "\<lambda>c n i. Some NoSuchCommandError" "''nosuch''" None True]
        run_or_fill_unknown_command [of "\<lambda>c n i. Some NoSuchCommandError" "''nosuch''" "Some 2" False]
  by simp

text \<open>
  C3 as the specification words it fails: with \<open>ignore_exc = False\<close> and a command parser
  that raises \<open>NoSuchCommandError\<close>, no exception leaves \<open>_run_or_fill\<close> and nothing is
  emitted or logged, so nothing is surfaced.
\<close>

theorem run_or_fill_unknown_command_counterexample:
  "snd (run_or_fill (\<lambda>c n i. Some NoSuchCommandError) ''nosuch'' None False) = None
   \<and> status_texts (fst (run_or_fill (\<lambda>c n i. Some NoSuchCommandError) ''nosuch'' None False)) = []
   \<and> fst (run_or_fill (\<lambda>c n i. Some NoSuchCommandError) ''nosuch'' None False)
       = [Run ''nosuch'' None False]"
  by (simp add: run_or_fill_def)

text \<open>
  C2, as the code has it. \<open>execute\<close>, the handler of a completed keychain, calls the
  command parser exactly once and with \<open>ignore_exc = False\<close>; when that call raises
  \<open>NoSuchCommandError\<close> the exception is swallowed all the same, by the handler of
  \<open>_run_or_fill\<close>: nothing else happens and no exception leaves \<open>execute\<close>.
\<close>

theorem execute_not_silent:
  "executor_calls (fst (execute run cmdstr count)) = [(cmdstr, count, False)] \<and>
   (run cmdstr count False = Some NoSuchCommandError \<longrightarrow>
      execute run cmdstr count = ([Run cmdstr count False], None))"
  by (cases "run cmdstr count False" rule: option.exhaust;
      cases "the (run cmdstr count False)"; simp add: execute_def run_or_fill_def)

theorem execute_not_silent_witness:
  "executor_calls (fst (execute (\<lambda>c n i. Some NoSuchCommandError) ''gg'' (Some 5)))
     = [(''gg'', Some 5, False)]
   \<and> execute (\<lambda>c n i. Some NoSuchCommandError) ''gg'' (Some 5) = ([Run ''gg'' (Some 5) False], None)"
  using execute_not_silent [of "\<lambda>c n i. Some NoSuchCommandError" "''gg''" "Some 5"]
  by simp

text \<open>
  C2 as the specification words it fails: the call that \<open>execute\<close> makes for a completed
  keychain carries \<open>ignore_exc = False\<close>, not \<open>True\<close>.
\<close>

theorem execute_silent_counterexample:
  "executor_calls (fst (execute (\<lambda>c n i. None) ''scroll-top'' None))
     = [(''scroll-top'', None, False)]
   \<and> (''scroll-top'', None, True)
       \<notin> set (executor_calls (fst (execute (\<lambda>c n i. None) ''scroll-top'' None)))"
  by (simp add: execute_def run_or_fill_def)

section \<open>The start characters\<close>

lemma strip_ws_startchar:
  "c \<in> set STARTCHARS \<Longrightarrow> strip_ws [c] = [c]"
  by (auto simp add: STARTCHARS_def strip_ws_def isspace_def)

text \<open>
  C6. A key event whose text is \<open>:\<close>, \<open>/\<close> or \<open>?\<close>, arriving while the keystring is empty,
  emits exactly that character with \<open>set_cmd_text\<close> and nothing else; the handler of the
  base class, which does the lookups, is not called (the result does not depend on it),
  the object is unchanged and the keystring is still empty.
\<close>

theorem handle_single_key_startchar:
  "keystring s = [] \<Longrightarrow> key_text e \<in> {'':'', ''/'', ''?''} \<Longrightarrow>
     handle_single_key super_handle s e = (s, [SetCmdText (key_text e)], None) \<and>
     keystring (fst (handle_single_key super_handle s e)) = []"
  using strip_ws_startchar [of "CHR '':''"] strip_ws_startchar [of "CHR ''/''"]
        strip_ws_startchar [of "CHR ''?''"]
  by (auto simp add: handle_single_key_def STARTCHARS_def)

theorem handle_single_key_startchar_witness:
  "handle_single_key (\<lambda>s e. (s\<lparr>keystring := keystring s @ key_text e\<rparr>, [], None))
     \<lparr>keystring = [], pending_count = None, bindings = [('':'', ''x'')], modifier_bindings = []\<rparr>
     \<lparr>key_text = '':'', key_modifier = False\<rparr>
   = (\<lparr>keystring = [], pending_count = None, bindings = [('':'', ''x'')], modifier_bindings = []\<rparr>,
      [SetCmdText '':''], None)"
  using handle_single_key_startchar
          [of "\<lparr>keystring = [], pending_count = None, bindings = [('':'', ''x'')], modifier_bindings = []\<rparr>"
              "\<lparr>key_text = '':'', key_modifier = False\<rparr>"
              "\<lambda>s e. (s\<lparr>keystring := keystring s @ key_text e\<rparr>, [], None)"]
  by simp

text \<open>
  C7. A key event whose text is \<open>:\<close>, \<open>/\<close> or \<open>?\<close>, arriving while the keystring is not
  empty, is not intercepted: \<open>_handle_single_key\<close> does exactly what the handler of the
  base class does with the event, and emits nothing of its own.
\<close>

theorem handle_single_key_midchain:
  "keystring s \<noteq> [] \<Longrightarrow> key_text e \<in> {'':'', ''/'', ''?''} \<Longrightarrow>
     handle_single_key super_handle s e = super_handle s e"
  by (simp add: handle_single_key_def)

theorem handle_single_key_midchain_witness:
  "handle_single_key (\<lambda>s e. (s\<lparr>keystring := keystring s @ key_text e\<rparr>, [], None))
     \<lparr>keystring = ''g'', pending_count = None, bindings = [(''g:'', ''x'')], modifier_bindings = []\<rparr>
     \<lparr>key_text = '':'', key_modifier = False\<rparr>
   = (\<lparr>keystring = ''g:'', pending_count = None, bindings = [(''g:'', ''x'')], modifier_bindings = []\<rparr>,
      [], None)"
  using handle_single_key_midchain
          [of "\<lparr>keystring = ''g'', pending_count = None, bindings = [(''g:'', ''x'')], modifier_bindings = []\<rparr>"
              "\<lparr>key_text = '':'', key_modifier = False\<rparr>"
              "\<lambda>s e. (s\<lparr>keystring := keystring s @ key_text e\<rparr>, [], None)"]
  by simp

section \<open>Reading the configuration\<close>

text \<open>
  One pass of the loop changes one table at one key; the whole loop overrides the
  tables it starts from with the bindings of the section, a later item winning over an
  earlier one.
\<close>

lemma read_items_Cons_fst:
  "fst (read_items n s (item # items)) = fst (read_items n (fst (register_key n s item)) items)"
  by (simp split: prod.splits)

lemma register_key_pending:
  "keystring (fst (register_key n s item)) = keystring s"
  "pending_count (fst (register_key n s item)) = pending_count s"
  by (simp_all add: register_key_def Let_def split: prod.splits)

lemma register_key_bindings:
  "map_of (bindings (fst (register_key n s item))) =
     (if is_modifier_spec (fst item) then map_of (bindings s)
      else (map_of (bindings s))(fst item \<mapsto> snd item))"
  by (simp add: register_key_def Let_def is_modifier_spec_def dict_set_def AList.update_conv'
           split: prod.splits)

lemma register_key_modifier_bindings:
  "map_of (modifier_bindings (fst (register_key n s item))) =
     (if is_modifier_spec (fst item)
      then (map_of (modifier_bindings s))(n (strip (fst item) ''@'') \<mapsto> snd item)
      else map_of (modifier_bindings s))"
  by (simp add: register_key_def Let_def is_modifier_spec_def dict_set_def AList.update_conv'
           split: prod.splits)

lemma read_items_pending:
  "keystring (fst (read_items n s sect)) = keystring s"
  "pending_count (fst (read_items n s sect)) = pending_count s"
  by (induction sect arbitrary: s)
     (simp_all add: read_items_Cons_fst register_key_pending del: read_items.simps(2))

lemma read_items_bindings:
  "map_of (bindings (fst (read_items n s sect))) = map_of (bindings s) ++ map_of (rev (plain_specs sect))"
proof (induction sect arbitrary: s)
  case Nil
  show ?case by (simp add: plain_specs_def)
next
  case (Cons item sect)
  show ?case
    unfolding read_items_Cons_fst Cons.IH register_key_bindings
    by (simp add: plain_specs_def)
qed

lemma read_items_modifier_bindings:
  "map_of (modifier_bindings (fst (read_items n s sect))) =
     map_of (modifier_bindings s) ++ map_of (rev (modifier_specs n sect))"
proof (induction sect arbitrary: s)
  case Nil
  show ?case by (simp add: modifier_specs_def)
next
  case (Cons item sect)
  show ?case
    unfolding read_items_Cons_fst Cons.IH register_key_modifier_bindings
    by (simp add: modifier_specs_def)
qed

lemma read_config_fst: "fst (read_config n sect s) = fst (read_items n s sect)"
  by (simp add: read_config_def split: prod.splits)


lemma dict_get_eq: "dict_get d = map_of d"
  by (rule ext) (simp add: dict_get_def)

lemma read_config_bindings:
  "dict_get (bindings (fst (read_config n sect s))) =
     dict_get (bindings s) ++ map_of (rev (plain_specs sect))"
  by (simp add: dict_get_eq read_config_fst read_items_bindings)

lemma read_config_modifier_bindings:
  "dict_get (modifier_bindings (fst (read_config n sect s))) =
     dict_get (modifier_bindings s) ++ map_of (rev (modifier_specs n sect))"
  by (simp add: dict_get_eq read_config_fst read_items_modifier_bindings)

lemma dom_map_of_rev: "dom (map_of (rev xs)) = set (map fst xs)"
  by (simp add: dom_map_of_conv_image_fst)

text \<open>
  C5. For every section and every state of the tables before the call: the plain table
  after \<open>read_config\<close> is the one before, overridden by the key-specs that are not
  wrapped in \<open>@\<close>, each under its own text; the modifier table is the one before,
  overridden by the wrapped key-specs, each under the normalization of its text stripped
  of \<open>@\<close>. So a wrapped key-spec is bound in the modifier table under its stripped and
  normalized text and leaves the plain table at its own text as it was, and a key-spec
  that is not wrapped is bound in the plain table as written; each is bound to its own
  command when no two key-specs of the section are stored under the same keystring.
\<close>

theorem read_config_key_specs:
  "dict_get (bindings (fst (read_config n sect s)))
     = dict_get (bindings s) ++ map_of (rev (plain_specs sect)) \<and>
   dict_get (modifier_bindings (fst (read_config n sect s)))
     = dict_get (modifier_bindings s) ++ map_of (rev (modifier_specs n sect)) \<and>
   (\<forall>key cmd. (key, cmd) \<in> set sect \<and> is_modifier_spec key \<longrightarrow>
      n (strip key ''@'') \<in> dom (dict_get (modifier_bindings (fst (read_config n sect s)))) \<and>
      dict_get (bindings (fst (read_config n sect s))) key = dict_get (bindings s) key) \<and>
   (\<forall>key cmd. (key, cmd) \<in> set sect \<and> \<not> is_modifier_spec key \<longrightarrow>
      key \<in> dom (dict_get (bindings (fst (read_config n sect s))))) \<and>
   (\<forall>key cmd. (key, cmd) \<in> set sect \<and> is_modifier_spec key
               \<and> distinct (modifier_keys n sect) \<longrightarrow>
      dict_get (modifier_bindings (fst (read_config n sect s))) (n (strip key ''@'')) = Some cmd) \<and>
   (\<forall>key cmd. (key, cmd) \<in> set sect \<and> \<not> is_modifier_spec key
               \<and> distinct (plain_keys sect) \<longrightarrow>
      dict_get (bindings (fst (read_config n sect s))) key = Some cmd)"
proof -
  have p: "dom (map_of (rev (plain_specs sect))) = set (plain_keys sect)"
    by (simp only: dom_map_of_rev plain_keys_def)
  have m: "dom (map_of (rev (modifier_specs n sect))) = set (modifier_keys n sect)"
    by (simp only: dom_map_of_rev modifier_keys_def)
  have a: "n (strip key ''@'') \<in> dom (dict_get (modifier_bindings (fst (read_config n sect s))))"
    if "(key, cmd) \<in> set sect" "is_modifier_spec key" for key cmd
  proof -
    from that have "(n (strip key ''@''), cmd) \<in> set (modifier_specs n sect)"
      by (force simp add: modifier_specs_def)
    then have "n (strip key ''@'') \<in> set (modifier_keys n sect)"
      by (force simp add: modifier_keys_def)
    then show ?thesis
      unfolding read_config_modifier_bindings dom_map_add m by blast
  qed
  have b: "dict_get (bindings (fst (read_config n sect s))) key = dict_get (bindings s) key"
    if "is_modifier_spec key" for key
  proof -
    from that have "key \<notin> set (plain_keys sect)"
      by (auto simp add: plain_keys_def plain_specs_def)
    then show ?thesis
      unfolding read_config_bindings using p by (simp add: map_add_dom_app_simps)
  qed
  have c: "key \<in> dom (dict_get (bindings (fst (read_config n sect s))))"
    if "(key, cmd) \<in> set sect" "\<not> is_modifier_spec key" for key cmd
  proof -
    from that have "(key, cmd) \<in> set (plain_specs sect)"
      by (simp add: plain_specs_def)
    then have "key \<in> set (plain_keys sect)"
      by (force simp add: plain_keys_def)
    then show ?thesis
      unfolding read_config_bindings dom_map_add p by blast
  qed
  from a b have d: "\<forall>key cmd. (key, cmd) \<in> set sect \<and> is_modifier_spec key \<longrightarrow>
      n (strip key ''@'') \<in> dom (dict_get (modifier_bindings (fst (read_config n sect s)))) \<and>
      dict_get (bindings (fst (read_config n sect s))) key = dict_get (bindings s) key"
    by blast
  from c have e: "\<forall>key cmd. (key, cmd) \<in> set sect \<and> \<not> is_modifier_spec key \<longrightarrow>
      key \<in> dom (dict_get (bindings (fst (read_config n sect s))))"
    by blast
  have f: "dict_get (modifier_bindings (fst (read_config n sect s))) (n (strip key ''@'')) = Some cmd"
    if "(key, cmd) \<in> set sect" "is_modifier_spec key" "distinct (modifier_keys n sect)"
    for key cmd
  proof -
    from that have "(n (strip key ''@''), cmd) \<in> set (rev (modifier_specs n sect))"
      by (force simp add: modifier_specs_def)
    moreover from that have "distinct (map fst (rev (modifier_specs n sect)))"
      by (simp add: modifier_keys_def rev_map [symmetric])
    ultimately have "map_of (rev (modifier_specs n sect)) (n (strip key ''@'')) = Some cmd"
      by (rule map_of_is_SomeI [rotated])
    then show ?thesis
      unfolding read_config_modifier_bindings by (simp add: map_add_Some_iff)
  qed
  have g: "dict_get (bindings (fst (read_config n sect s))) key = Some cmd"
    if "(key, cmd) \<in> set sect" "\<not> is_modifier_spec key" "distinct (plain_keys sect)"
    for key cmd
  proof -
    from that have "(key, cmd) \<in> set (rev (plain_specs sect))"
      by (simp add: plain_specs_def)
    moreover from that have "distinct (map fst (rev (plain_specs sect)))"
      by (simp add: plain_keys_def rev_map [symmetric])
    ultimately have "map_of (rev (plain_specs sect)) key = Some cmd"
      by (rule map_of_is_SomeI [rotated])
    then show ?thesis
      unfolding read_config_bindings by (simp add: map_add_Some_iff)
  qed
  from f have f': "\<forall>key cmd. (key, cmd) \<in> set sect \<and> is_modifier_spec key
               \<and> distinct (modifier_keys n sect) \<longrightarrow>
      dict_get (modifier_bindings (fst (read_config n sect s))) (n (strip key ''@'')) = Some cmd"
    by blast
  from g have g': "\<forall>key cmd. (key, cmd) \<in> set sect \<and> \<not> is_modifier_spec key
               \<and> distinct (plain_keys sect) \<longrightarrow>
      dict_get (bindings (fst (read_config n sect s))) key = Some cmd"
    by blast
  show ?thesis
    by (rule conjI [OF read_config_bindings conjI [OF read_config_modifier_bindings
          conjI [OF d conjI [OF e conjI [OF f' g']]]]])
qed

theorem read_config_key_specs_witness:
  "((''@c@'', ''z'') \<in> set [(''b'', ''y''), (''@c@'', ''z'')] \<and> is_modifier_spec ''@c@'')
   \<and> ''c'' \<in> dom (dict_get (modifier_bindings (fst (read_config (\<lambda>k. k) [(''b'', ''y''), (''@c@'', ''z'')] empty_parser))))
   \<and> dict_get (bindings (fst (read_config (\<lambda>k. k) [(''b'', ''y''), (''@c@'', ''z'')] empty_parser))) ''@c@'' = None
   \<and> ((''b'', ''y'') \<in> set [(''b'', ''y''), (''@c@'', ''z'')] \<and> \<not> is_modifier_spec ''b'')
   \<and> ''b'' \<in> dom (dict_get (bindings (fst (read_config (\<lambda>k. k) [(''b'', ''y''), (''@c@'', ''z'')] empty_parser))))
   \<and> dict_get (modifier_bindings (fst (read_config (\<lambda>k. k) [(''b'', ''y''), (''@c@'', ''z'')] empty_parser))) ''b'' = None
   \<and> distinct (modifier_keys (\<lambda>k. k) [(''b'', ''y''), (''@c@'', ''z'')])
   \<and> dict_get (modifier_bindings (fst (read_config (\<lambda>k. k) [(''b'', ''y''), (''@c@'', ''z'')] empty_parser))) ''c'' = Some ''z''
   \<and> distinct (plain_keys [(''b'', ''y''), (''@c@'', ''z'')])
   \<and> dict_get (bindings (fst (read_config (\<lambda>k. k) [(''b'', ''y''), (''@c@'', ''z'')] empty_parser))) ''b'' = Some ''y''"
  using read_config_key_specs [of "\<lambda>k. k" "[(''b'', ''y''), (''@c@'', ''z'')]" empty_parser]
  by (auto simp add: eval_defs)

text \<open>
  Python's \<open>strip\<close> with one character: what it leaves neither starts nor ends with
  that character, and what it removes are runs of that character at the two ends.
\<close>

lemma startswith_single: "startswith s [a] \<longleftrightarrow> s \<noteq> [] \<and> hd s = a"
  by (cases s) (auto simp add: startswith_def)

lemma endswith_single: "endswith s [a] \<longleftrightarrow> s \<noteq> [] \<and> last s = a"
  by (cases s rule: rev_cases) (auto simp add: endswith_def suffix_def)

lemma strip_single:
  "strip s [a] = rev (dropWhile (\<lambda>c. c = a) (rev (dropWhile (\<lambda>c. c = a) s)))"
  by (simp add: strip_def)

lemma takeWhile_single:
  "takeWhile (\<lambda>c. c = a) xs = replicate (length (takeWhile (\<lambda>c. c = a) xs)) a"
  by (induction xs) simp_all

lemma rev_take_drop:
  "xs = rev (dropWhile P (rev xs)) @ rev (takeWhile P (rev xs))"
proof -
  have "rev (rev xs) = rev (takeWhile P (rev xs) @ dropWhile P (rev xs))"
    by (simp only: takeWhile_dropWhile_id)
  then show ?thesis by (simp only: rev_rev_ident rev_append)
qed

lemma strip_decompose:
  "\<exists>i j. s = replicate i a @ strip s [a] @ replicate j a"
proof -
  let ?p = "\<lambda>c. c = a"
  let ?ys = "dropWhile ?p s"
  let ?i = "length (takeWhile ?p s)"
  let ?j = "length (takeWhile ?p (rev ?ys))"
  have 1: "s = takeWhile ?p s @ ?ys" by simp
  have 2: "?ys = strip s [a] @ rev (takeWhile ?p (rev ?ys))"
    unfolding strip_single by (rule rev_take_drop)
  have 3: "takeWhile ?p s = replicate ?i a"
    by (rule takeWhile_single)
  have "takeWhile ?p (rev ?ys) = replicate ?j a"
    by (rule takeWhile_single)
  then have 4: "rev (takeWhile ?p (rev ?ys)) = replicate ?j a"
    by (metis rev_replicate)
  from 1 2 3 4 have "s = replicate ?i a @ strip s [a] @ replicate ?j a"
    by metis
  then show ?thesis by blast
qed

lemma strip_no_lead: "\<not> startswith (strip s [a]) [a]"
proof
  let ?p = "\<lambda>c. c = a"
  let ?ys = "dropWhile ?p s"
  let ?zs = "dropWhile ?p (rev ?ys)"
  assume "startswith (strip s [a]) [a]"
  then have z: "?zs \<noteq> []" and l: "last ?zs = a"
    by (simp_all add: startswith_single strip_single hd_rev)
  from z have y: "?ys \<noteq> []"
    by (cases "?ys = []") simp_all
  have "rev ?ys = takeWhile ?p (rev ?ys) @ ?zs" by simp
  with z have "last (rev ?ys) = last ?zs"
    by (metis last_appendR)
  with l y have "hd ?ys = a" by (simp add: last_rev)
  moreover from y have "\<not> ?p (hd ?ys)" by (rule hd_dropWhile)
  ultimately show False by simp
qed

lemma strip_no_trail: "\<not> endswith (strip s [a]) [a]"
proof
  let ?p = "\<lambda>c. c = a"
  let ?zs = "dropWhile ?p (rev (dropWhile ?p s))"
  assume "endswith (strip s [a]) [a]"
  then have z: "?zs \<noteq> []" and l: "hd ?zs = a"
    by (simp_all add: endswith_single strip_single last_rev)
  from z have "\<not> ?p (hd ?zs)" by (rule hd_dropWhile)
  with l show False by simp
qed

lemma dict_get_set:
  "dict_get (dict_set d k v) k' = (if k' = k then Some v else dict_get d k')"
  by (simp add: dict_get_def dict_set_def AList.update_conv')

text \<open>
  C10. A key-spec is a modifier spec exactly when it is not empty and its first and its
  last character are \<open>@\<close>. The one-character key-spec \<open>@\<close> is one: after
  \<open>read_config\<close> a lookup of the normalization of the empty string in the modifier table
  gives its command, and the plain table is as before. \<open>@@a@@\<close> is one: after
  \<open>read_config\<close> a lookup of the normalization of \<open>a\<close> gives its command. In general a
  modifier spec is found afterwards under the normalization of the key-spec without all
  of its leading and all of its trailing \<open>@\<close>, and any other key-spec under its own text
  in the plain table; the stripped text differs from the key-spec by runs of \<open>@\<close> at the
  two ends, and neither starts nor ends with \<open>@\<close>.
\<close>

theorem modifier_spec_classification:
  "(is_modifier_spec key \<longleftrightarrow> key \<noteq> [] \<and> hd key = CHR ''@'' \<and> last key = CHR ''@'') \<and>
   is_modifier_spec ''@'' \<and>
   dict_get (modifier_bindings (fst (read_config n [(''@'', cmd)] s))) (n []) = Some cmd \<and>
   dict_get (bindings (fst (read_config n [(''@'', cmd)] s))) k = dict_get (bindings s) k \<and>
   fst (read_config n [(''@'', cmd)] s)
     = s\<lparr>modifier_bindings := dict_set (modifier_bindings s) (n []) cmd\<rparr> \<and>
   is_modifier_spec ''@@a@@'' \<and>
   dict_get (modifier_bindings (fst (read_config n [(''@@a@@'', cmd)] s))) (n ''a'') = Some cmd \<and>
   dict_get (bindings (fst (read_config n [(''@@a@@'', cmd)] s))) k = dict_get (bindings s) k \<and>
   fst (read_config n [(''@@a@@'', cmd)] s)
     = s\<lparr>modifier_bindings := dict_set (modifier_bindings s) (n ''a'') cmd\<rparr> \<and>
   (if is_modifier_spec key
    then dict_get (modifier_bindings (fst (read_config n [(key, cmd)] s))) (n (strip key ''@''))
           = Some cmd \<and>
         dict_get (bindings (fst (read_config n [(key, cmd)] s))) k = dict_get (bindings s) k
    else dict_get (bindings (fst (read_config n [(key, cmd)] s))) key = Some cmd \<and>
         dict_get (modifier_bindings (fst (read_config n [(key, cmd)] s))) k
           = dict_get (modifier_bindings s) k) \<and>
   fst (read_config n [(key, cmd)] s)
     = (if is_modifier_spec key
        then s\<lparr>modifier_bindings := dict_set (modifier_bindings s) (n (strip key ''@'')) cmd\<rparr>
        else s\<lparr>bindings := dict_set (bindings s) key cmd\<rparr>) \<and>
   (\<exists>i j. key = replicate i CHR ''@'' @ strip key ''@'' @ replicate j CHR ''@'') \<and>
   \<not> startswith (strip key ''@'') ''@'' \<and> \<not> endswith (strip key ''@'') ''@''"
proof -
  have a: "is_modifier_spec key \<longleftrightarrow> key \<noteq> [] \<and> hd key = CHR ''@'' \<and> last key = CHR ''@''"
    by (auto simp add: is_modifier_spec_def startswith_single endswith_single)
  have b: "is_modifier_spec ''@''" "is_modifier_spec ''@@a@@''"
    by (simp_all add: is_modifier_spec_def startswith_single endswith_single)
  have c: "strip ''@'' ''@'' = []" "strip ''@@a@@'' ''@'' = ''a''"
    by (simp_all add: strip_def)
  have d: "fst (read_config n [(x, cmd)] s)
     = (if is_modifier_spec x
        then s\<lparr>modifier_bindings := dict_set (modifier_bindings s) (n (strip x ''@'')) cmd\<rparr>
        else s\<lparr>bindings := dict_set (bindings s) x cmd\<rparr>)" for x
    by (simp add: read_config_def register_key_def is_modifier_spec_def Let_def)
  have e: "if is_modifier_spec x
    then dict_get (modifier_bindings (fst (read_config n [(x, cmd)] s))) (n (strip x ''@''))
           = Some cmd \<and>
         dict_get (bindings (fst (read_config n [(x, cmd)] s))) k = dict_get (bindings s) k
    else dict_get (bindings (fst (read_config n [(x, cmd)] s))) x = Some cmd \<and>
         dict_get (modifier_bindings (fst (read_config n [(x, cmd)] s))) k
           = dict_get (modifier_bindings s) k" for x
    unfolding d by (simp add: dict_get_set)
  from e [of "''@''"] b(1) c(1)
  have f1: "dict_get (modifier_bindings (fst (read_config n [(''@'', cmd)] s))) (n []) = Some cmd"
    and f2: "dict_get (bindings (fst (read_config n [(''@'', cmd)] s))) k = dict_get (bindings s) k"
    by simp_all
  from e [of "''@@a@@''"] b(2) c(2)
  have g1: "dict_get (modifier_bindings (fst (read_config n [(''@@a@@'', cmd)] s))) (n ''a'') = Some cmd"
    and g2: "dict_get (bindings (fst (read_config n [(''@@a@@'', cmd)] s))) k = dict_get (bindings s) k"
    by simp_all
  from d [of "''@''"] b(1) c(1)
  have h: "fst (read_config n [(''@'', cmd)] s)
     = s\<lparr>modifier_bindings := dict_set (modifier_bindings s) (n []) cmd\<rparr>"
    by simp
  from d [of "''@@a@@''"] b(2) c(2)
  have i: "fst (read_config n [(''@@a@@'', cmd)] s)
     = s\<lparr>modifier_bindings := dict_set (modifier_bindings s) (n ''a'') cmd\<rparr>"
    by simp
  note j = strip_decompose [of key "CHR ''@''"]
  note l = strip_no_lead [of key "CHR ''@''"]
  note m = strip_no_trail [of key "CHR ''@''"]
  show ?thesis
    by (rule conjI [OF a conjI [OF b(1) conjI [OF f1 conjI [OF f2 conjI [OF h
          conjI [OF b(2) conjI [OF g1 conjI [OF g2 conjI [OF i
          conjI [OF e [of key] conjI [OF d [of key] conjI [OF j conjI [OF l m]]]]]]]]]]]]])
qed

theorem modifier_spec_classification_witness:
  "is_modifier_spec ''@'' \<and> is_modifier_spec ''@@a@@'' \<and> is_modifier_spec ''@ctrl-a@''
   \<and> \<not> is_modifier_spec ''@a'' \<and> \<not> is_modifier_spec []
   \<and> strip ''@'' ''@'' = [] \<and> strip ''@@a@@'' ''@'' = ''a'' \<and> strip ''@a@b@'' ''@'' = ''a@b''
   \<and> dict_get (modifier_bindings (fst (read_config (\<lambda>k. ''<'' @ k @ ''>'') [(''@'', ''x'')]
         empty_parser))) ''<>'' = Some ''x''
   \<and> dict_get (bindings (fst (read_config (\<lambda>k. ''<'' @ k @ ''>'') [(''@'', ''x'')]
         empty_parser))) ''@'' = None
   \<and> dict_get (modifier_bindings (fst (read_config (\<lambda>k. ''<'' @ k @ ''>'') [(''@@a@@'', ''x'')]
         empty_parser))) ''<a>'' = Some ''x''
   \<and> dict_get (modifier_bindings (fst (read_config (\<lambda>k. ''<'' @ k @ ''>'') [(''@@a@@'', ''x'')]
         empty_parser))) ''<@a@>'' = None
   \<and> dict_get (bindings (fst (read_config (\<lambda>k. ''<'' @ k @ ''>'') [(''@@a@@'', ''x'')]
         empty_parser))) ''@@a@@'' = None
   \<and> dict_get (modifier_bindings (fst (read_config (\<lambda>k. ''<'' @ k @ ''>'') [(''@ctrl-a@'', ''x'')]
         empty_parser))) ''<ctrl-a>'' = Some ''x''
   \<and> dict_get (bindings (fst (read_config (\<lambda>k. ''<'' @ k @ ''>'') [(''@a'', ''x'')]
         empty_parser))) ''@a'' = Some ''x''
   \<and> dict_get (modifier_bindings (fst (read_config (\<lambda>k. ''<'' @ k @ ''>'') [(''@a'', ''x'')]
         empty_parser))) ''<a>'' = None"
  using modifier_spec_classification
          [of "''@ctrl-a@''" "\<lambda>k. ''<'' @ k @ ''>''" "''x''" empty_parser "''@''"]
        modifier_spec_classification
          [of "''@a''" "\<lambda>k. ''<'' @ k @ ''>''" "''x''" empty_parser "''<a>''"]
        modifier_spec_classification
          [of "[]" "\<lambda>k. ''<'' @ k @ ''>''" "''x''" empty_parser "''@@a@@''"]
  by (simp add: eval_defs)




text \<open>
  C8. Calling \<open>read_config\<close> a second time with the same section changes no lookup:
  for every keystring the plain and the modifier lookup after the second call give what
  they gave after the first.
\<close>

theorem read_config_twice:
  "dict_get (bindings (fst (read_config n sect (fst (read_config n sect s))))) k
     = dict_get (bindings (fst (read_config n sect s))) k \<and>
   dict_get (modifier_bindings (fst (read_config n sect (fst (read_config n sect s))))) k
     = dict_get (modifier_bindings (fst (read_config n sect s))) k"
  by (simp add: read_config_bindings read_config_modifier_bindings map_add_def split: option.splits)

theorem read_config_twice_witness:
  "dict_get (bindings (fst (read_config (\<lambda>k. k) [(''b'', ''y''), (''@c@'', ''z'')]
      (fst (read_config (\<lambda>k. k) [(''b'', ''y''), (''@c@'', ''z'')] empty_parser))))) ''b'' = Some ''y''
   \<and> dict_get (modifier_bindings (fst (read_config (\<lambda>k. k) [(''b'', ''y''), (''@c@'', ''z'')]
      (fst (read_config (\<lambda>k. k) [(''b'', ''y''), (''@c@'', ''z'')] empty_parser))))) ''c'' = Some ''z''"
  using read_config_twice [of "\<lambda>k. k" "[(''b'', ''y''), (''@c@'', ''z'')]" empty_parser "''b''"]
        read_config_twice [of "\<lambda>k. k" "[(''b'', ''y''), (''@c@'', ''z'')]" empty_parser "''c''"]
  by (simp add: eval_defs)

section \<open>An empty section\<close>

text \<open>
  With both tables empty the accumulator never dispatches and never warns, whatever
  keys arrive, and the tables stay empty.
\<close>

lemma executor_calls_append:
  "executor_calls (xs @ ys) = executor_calls xs @ executor_calls ys"
  by (induction xs rule: executor_calls.induct) simp_all

lemma warnings_append: "warnings (xs @ ys) = warnings xs @ warnings ys"
  by (induction xs rule: warnings.induct) simp_all

lemma execute_no_warning: "warnings (fst (execute run cmdstr count)) = []"
proof (cases "run cmdstr count False")
  case None
  then show ?thesis by (simp add: execute_def run_or_fill_def)
next
  case (Some x)
  then show ?thesis by (cases x) (simp_all add: execute_def run_or_fill_def)
qed

lemma handle_single_key_no_warning:
  "warnings (fst (snd (handle_single_key (accumulate n run) s e))) = []"
  using execute_no_warning [of run]
  by (simp add: handle_single_key_def accumulate_def Let_def case_prod_beta
           split: option.splits)

lemma handle_keys_no_warning:
  "warnings (snd (handle_keys (handle_single_key (accumulate n run)) s es)) = []"
proof (induction es arbitrary: s)
  case Nil
  show ?case by simp
next
  case (Cons e es)
  obtain s1 l x where h: "handle_single_key (accumulate n run) s e = (s1, l, x)"
    by (cases "handle_single_key (accumulate n run) s e")
  from handle_single_key_no_warning [of n run s e] h have "warnings l = []" by simp
  with Cons.IH [of s1] h show ?case
    by (simp add: warnings_append case_prod_beta)
qed

lemma accumulate_unbound:
  assumes "bindings s = []" and "modifier_bindings s = []"
  shows "snd (accumulate n run s e) = ([], None)"
    and "bindings (fst (accumulate n run s e)) = []"
    and "modifier_bindings (fst (accumulate n run s e)) = []"
  using assms
  by (simp_all add: accumulate_def Let_def lookup_plain_def lookup_modifier_def dict_get_def
                    dict_keys_def reset_def)

lemma handle_single_key_unbound:
  assumes "bindings s = []" and "modifier_bindings s = []"
  shows "executor_calls (fst (snd (handle_single_key (accumulate n run) s e))) = []"
    and "bindings (fst (handle_single_key (accumulate n run) s e)) = []"
    and "modifier_bindings (fst (handle_single_key (accumulate n run) s e)) = []"
  using assms accumulate_unbound [OF assms, of n run e]
  by (simp_all add: handle_single_key_def Let_def)

lemma handle_keys_unbound:
  "bindings s = [] \<Longrightarrow> modifier_bindings s = [] \<Longrightarrow>
     executor_calls (snd (handle_keys (handle_single_key (accumulate n run)) s es)) = []"
proof (induction es arbitrary: s)
  case Nil
  show ?case by simp
next
  case (Cons e es)
  obtain s1 l x where h: "handle_single_key (accumulate n run) s e = (s1, l, x)"
    by (cases "handle_single_key (accumulate n run) s e")
  from handle_single_key_unbound [OF Cons.prems, of n run e] h
  have l: "executor_calls l = []"
    and s1: "bindings s1 = []" "modifier_bindings s1 = []"
    by simp_all
  from Cons.IH [OF s1] h l show ?case
    by (simp add: executor_calls_append case_prod_beta)
qed

text \<open>
  C9, as the code has it. \<open>read_config\<close> with an empty section raises nothing, logs
  the warning exactly once and leaves the object, the two tables included, exactly as it
  was; no sequence of later key presses logs a warning. When both tables were empty
  before the call, as on a new parser, every plain and every modifier lookup misses
  afterwards, and no sequence of later key presses makes a call to the command parser.
\<close>

theorem read_config_empty_section:
  "snd (snd (read_config n [] s)) = None \<and>
   warnings (fst (snd (read_config n [] s))) = [''No keybindings defined!''] \<and>
   fst (read_config n [] s) = s \<and>
   (\<forall>es. warnings (snd (handle_keys (handle_single_key (accumulate n run))
                               (fst (read_config n [] s)) es)) = []) \<and>
   (bindings s = [] \<and> modifier_bindings s = [] \<longrightarrow>
      (\<forall>k. lookup_plain (fst (read_config n [] s)) k = None \<and>
           lookup_modifier (fst (read_config n [] s)) k = None) \<and>
      (\<forall>es. executor_calls (snd (handle_keys (handle_single_key (accumulate n run))
                                     (fst (read_config n [] s)) es)) = []))"
proof -
  have r: "read_config n [] s = (s, [LogWarn ''No keybindings defined!''], None)"
    by (simp add: read_config_def)
  show ?thesis
    unfolding r using handle_keys_unbound [of s n run] handle_keys_no_warning [of n run s]
    by (simp add: lookup_plain_def lookup_modifier_def dict_get_def)
qed

theorem read_config_empty_section_witness:
  "bindings empty_parser = [] \<and> modifier_bindings empty_parser = []
   \<and> read_config (\<lambda>k. k) [] empty_parser = (empty_parser, [LogWarn ''No keybindings defined!''], None)
   \<and> lookup_plain (fst (read_config (\<lambda>k. k) [] empty_parser)) ''g'' = None
   \<and> lookup_modifier (fst (read_config (\<lambda>k. k) [] empty_parser)) ''Ctrl+a'' = None
   \<and> executor_calls (snd (handle_keys (handle_single_key (accumulate (\<lambda>k. k) (\<lambda>c n i. None)))
         (fst (read_config (\<lambda>k. k) [] empty_parser))
         [\<lparr>key_text = ''g'', key_modifier = False\<rparr>, \<lparr>key_text = ''2'', key_modifier = False\<rparr>,
          \<lparr>key_text = ''a'', key_modifier = True\<rparr>])) = []
   \<and> warnings (snd (handle_keys (handle_single_key (accumulate (\<lambda>k. k) (\<lambda>c n i. None)))
         (fst (read_config (\<lambda>k. k) [] empty_parser))
         [\<lparr>key_text = ''g'', key_modifier = False\<rparr>, \<lparr>key_text = ''2'', key_modifier = False\<rparr>,
          \<lparr>key_text = ''a'', key_modifier = True\<rparr>])) = []"
proof -
  have e: "bindings empty_parser = [] \<and> modifier_bindings empty_parser = []"
    by (simp add: empty_parser_def)
  have r: "read_config (\<lambda>k. k) [] empty_parser
             = (empty_parser, [LogWarn ''No keybindings defined!''], None)"
    by (simp add: read_config_def)
  from e r read_config_empty_section [of "\<lambda>k. k" empty_parser "\<lambda>c n i. None"]
  show ?thesis by (simp del: handle_keys.simps)
qed

text \<open>
  The wording of the specification for C9 fails: an empty section does not give an
  empty table. After a first \<open>read_config\<close> with the item \<open>a\<close> on a parser with empty
  tables and a second one with an empty section, \<open>a\<close> is still bound, and pressing
  \<open>a\<close> dispatches its command.
\<close>

theorem read_config_empty_section_counterexample:
  "dict_get (bindings (fst (read_config (\<lambda>k. k) []
       (fst (read_config (\<lambda>k. k) [(''a'', ''x'')] empty_parser))))) ''a'' = Some ''x''
   \<and> executor_calls (fst (snd (handle_single_key (accumulate (\<lambda>k. k) (\<lambda>c n i. None))
       (fst (read_config (\<lambda>k. k) [] (fst (read_config (\<lambda>k. k) [(''a'', ''x'')] empty_parser))))
       \<lparr>key_text = ''a'', key_modifier = False\<rparr>))) = [(''x'', None, False)]"
  by (simp add: eval_defs lookup_plain_def lookup_modifier_def handle_single_key_def
                accumulate_def strip_ws_def isspace_def STARTCHARS_def is_bare_digit_def
                execute_def run_or_fill_def supports_count_def)

end
